theory Spec2Isabelle
  imports Main
begin

section \<open>Text: bytes, code units, decoding\<close>

text \<open>
  The backend (\<^verbatim>\<open>src/backend/main.ts\<close>) is one request handler: it answers the preflight
  and refuses other methods than \<^verbatim>\<open>POST\<close>, reads the prompt from the body, calls the
  model server, reads its answer chunk by chunk, parses every line of every chunk as a
  JSON record, appends the \<^verbatim>\<open>response\<close> of each record to one string, and returns that
  string as JSON. This theory follows the handler statement by statement. A thrown
  value is the left summand of a result, the calls to the model server and to
  \<^verbatim>\<open>console.error\<close> are a list of effects next to the response, and the library functions
  the handler calls (\<^verbatim>\<open>TextDecoder\<close>, \<^verbatim>\<open>split\<close>, \<^verbatim>\<open>trim\<close>, \<^verbatim>\<open>JSON.parse\<close>, the
  conversions to boolean and to string) are defined from their standards.

  The handler runs on a JavaScript engine, whose strings are sequences of 16-bit code
  units; a code unit is a natural number here, and a byte of a \<^verbatim>\<open>Uint8Array\<close> (a request
  body, a chunk read from the upstream body) is a \<^typ>\<open>char\<close>. String literals of the
  source are written \<open>str ''...''\<close>.
\<close>

type_synonym jstring = "nat list"

definition str :: "string \<Rightarrow> jstring" where
  "str s = map of_char s"

text \<open>
  \<^verbatim>\<open>new TextDecoder().decode(value)\<close>: the UTF-8 decoder of the Encoding standard, in
  replacement mode, called without the \<^verbatim>\<open>stream\<close> option, so that every call starts
  from a fresh decoder. \<open>utf8_decode needed cp lo hi\<close> is the decoder's state: the
  continuation bytes still needed, the code point built so far, and the bounds on the
  next byte. A byte that cannot continue a sequence yields U+FFFD and is read again as
  the start of a sequence; a sequence cut off by the end of the input yields U+FFFD.
\<close>

function utf8_decode :: "nat \<Rightarrow> nat \<Rightarrow> nat \<Rightarrow> nat \<Rightarrow> nat list \<Rightarrow> nat list" where
  "utf8_decode needed cp lo hi [] = (if needed = 0 then [] else [0xFFFD])"
| "utf8_decode needed cp lo hi (b # bs) =
     (if needed = 0 then
        (if b \<le> 0x7F then b # utf8_decode 0 0 0x80 0xBF bs
         else if 0xC2 \<le> b \<and> b \<le> 0xDF then utf8_decode 1 (b mod 32) 0x80 0xBF bs
         else if 0xE0 \<le> b \<and> b \<le> 0xEF then
           utf8_decode 2 (b mod 16) (if b = 0xE0 then 0xA0 else 0x80)
             (if b = 0xED then 0x9F else 0xBF) bs
         else if 0xF0 \<le> b \<and> b \<le> 0xF4 then
           utf8_decode 3 (b mod 8) (if b = 0xF0 then 0x90 else 0x80)
             (if b = 0xF4 then 0x8F else 0xBF) bs
         else 0xFFFD # utf8_decode 0 0 0x80 0xBF bs)
      else if b < lo \<or> hi < b then 0xFFFD # utf8_decode 0 0 0x80 0xBF (b # bs)
      else if needed = 1 then (cp * 64 + b mod 64) # utf8_decode 0 0 0x80 0xBF bs
      else utf8_decode (needed - 1) (cp * 64 + b mod 64) 0x80 0xBF bs)"
  by pat_completeness auto
termination
  by (relation "measure (\<lambda>(needed, cp, lo, hi, bs). 2 * length bs + (if needed = 0 then 0 else 1))")
    auto

text \<open>A leading byte order mark (the code point U+FEFF) is dropped from the output.\<close>

fun strip_bom :: "nat list \<Rightarrow> nat list" where
  "strip_bom [] = []"
| "strip_bom (c # cs) = (if c = 0xFEFF then cs else c # cs)"

text \<open>A code point beyond the basic plane is a surrogate pair of code units.\<close>

definition utf16 :: "nat \<Rightarrow> jstring" where
  "utf16 cp =
     (if cp < 0x10000 then [cp]
      else [0xD800 + (cp - 0x10000) div 0x400, 0xDC00 + (cp - 0x10000) mod 0x400])"

definition TextDecoder_decode :: "string \<Rightarrow> jstring" where
  "TextDecoder_decode bytes =
     concat (map utf16 (strip_bom (utf8_decode 0 0 0x80 0xBF (map of_char bytes))))"

text \<open>
  \<^verbatim>\<open>chunk.split("\n")\<close>: the pieces between the occurrences of the code unit 10; a
  string without one (the empty string too) is a single piece.
\<close>

fun split_nl :: "jstring \<Rightarrow> jstring list" where
  "split_nl [] = [[]]"
| "split_nl (c # cs) =
     (if c = 10 then [] # split_nl cs
      else (case split_nl cs of [] \<Rightarrow> [[c]] | l # ls \<Rightarrow> (c # l) # ls))"

text \<open>
  \<^verbatim>\<open>line.trim()\<close> removes the white space and the line terminators of ECMAScript from
  both ends.
\<close>

definition is_js_space :: "nat \<Rightarrow> bool" where
  "is_js_space c \<longleftrightarrow>
     c = 0x09 \<or> c = 0x0A \<or> c = 0x0B \<or> c = 0x0C \<or> c = 0x0D \<or> c = 0x20 \<or> c = 0xA0 \<or>
     c = 0x1680 \<or> (0x2000 \<le> c \<and> c \<le> 0x200A) \<or> c = 0x2028 \<or> c = 0x2029 \<or>
     c = 0x202F \<or> c = 0x205F \<or> c = 0x3000 \<or> c = 0xFEFF"

definition trim :: "jstring \<Rightarrow> jstring" where
  "trim s = rev (dropWhile is_js_space (rev (dropWhile is_js_space s)))"

section \<open>JSON.parse\<close>

text \<open>
  The values \<^verbatim>\<open>JSON.parse\<close> builds. A number is kept exactly, as \<open>JNum m e\<close> for
  \<open>m * 10 ^ e\<close>; the members of an object are kept in the order of the text, and a
  later member of the same name overrides an earlier one when a property is read.
\<close>

datatype json =
    JNull
  | JBool bool
  | JNum int int
  | JStr jstring
  | JArr "json list"
  | JObj "(jstring \<times> json) list"

datatype token =
    LBrace | RBrace | LBracket | RBracket | Colon | Comma
  | TStr jstring | TNum int int | TTrue | TFalse | TNull

definition is_json_ws :: "nat \<Rightarrow> bool" where
  "is_json_ws c \<longleftrightarrow> c = 0x09 \<or> c = 0x0A \<or> c = 0x0D \<or> c = 0x20"

definition is_digit :: "nat \<Rightarrow> bool" where
  "is_digit c \<longleftrightarrow> 0x30 \<le> c \<and> c \<le> 0x39"

definition digits_val :: "jstring \<Rightarrow> nat" where
  "digits_val ds = foldl (\<lambda>a c. 10 * a + (c - 0x30)) 0 ds"

definition hex_val :: "nat \<Rightarrow> nat option" where
  "hex_val c =
     (if 0x30 \<le> c \<and> c \<le> 0x39 then Some (c - 0x30)
      else if 0x41 \<le> c \<and> c \<le> 0x46 then Some (c - 0x37)
      else if 0x61 \<le> c \<and> c \<le> 0x66 then Some (c - 0x57)
      else None)"

definition hex4 :: "nat \<Rightarrow> nat \<Rightarrow> nat \<Rightarrow> nat \<Rightarrow> nat option" where
  "hex4 h1 h2 h3 h4 =
     (case (hex_val h1, hex_val h2, hex_val h3, hex_val h4) of
        (Some a, Some b, Some c, Some d) \<Rightarrow> Some (((a * 16 + b) * 16 + c) * 16 + d)
      | _ \<Rightarrow> None)"

text \<open>The character after a backslash, other than \<^verbatim>\<open>u\<close>, and the code unit it stands for.\<close>

definition escape_char :: "nat \<Rightarrow> nat option" where
  "escape_char e =
     (if e = 0x22 then Some 0x22
      else if e = 0x5C then Some 0x5C
      else if e = 0x2F then Some 0x2F
      else if e = 0x62 then Some 0x08
      else if e = 0x66 then Some 0x0C
      else if e = 0x6E then Some 0x0A
      else if e = 0x72 then Some 0x0D
      else if e = 0x74 then Some 0x09
      else None)"

text \<open>
  \<open>scan_string acc cs\<close> reads a string literal whose opening quote has been read: the
  content up to the closing quote and the text after it. A control character and an
  unknown escape are errors.
\<close>

fun scan_string :: "jstring \<Rightarrow> jstring \<Rightarrow> (jstring \<times> jstring) option" where
  "scan_string acc [] = None"
| "scan_string acc (c # cs) =
     (if c = 0x22 then Some (acc, cs)
      else if c = 0x5C then
        (case cs of
           [] \<Rightarrow> None
         | e # es \<Rightarrow>
             if e = 0x75 then
               (case es of
                  h1 # h2 # h3 # h4 # rest \<Rightarrow>
                    (case hex4 h1 h2 h3 h4 of
                       None \<Rightarrow> None
                     | Some u \<Rightarrow> scan_string (acc @ [u]) rest)
                | _ \<Rightarrow> None)
             else
               (case escape_char e of
                  None \<Rightarrow> None
                | Some x \<Rightarrow> scan_string (acc @ [x]) es))
      else if c < 0x20 then None
      else scan_string (acc @ [c]) cs)"

definition scan_digits :: "jstring \<Rightarrow> jstring \<times> jstring" where
  "scan_digits cs = (takeWhile is_digit cs, dropWhile is_digit cs)"

text \<open>The integer part: one or more digits, with no leading zero before another digit.\<close>

definition scan_int :: "jstring \<Rightarrow> (jstring \<times> jstring) option" where
  "scan_int cs =
     (case scan_digits cs of
        (ds, rest) \<Rightarrow>
          if ds = [] \<or> (hd ds = 0x30 \<and> 1 < length ds) then None else Some (ds, rest))"

text \<open>The optional fraction: a point and one or more digits.\<close>

definition scan_frac :: "jstring \<Rightarrow> (jstring \<times> jstring) option" where
  "scan_frac cs =
     (case cs of
        [] \<Rightarrow> Some ([], cs)
      | c # cs' \<Rightarrow>
          if c = 0x2E then
            (case scan_digits cs' of
               (ds, rest) \<Rightarrow> if ds = [] then None else Some (ds, rest))
          else Some ([], cs))"

text \<open>The optional exponent: \<^verbatim>\<open>e\<close> or \<^verbatim>\<open>E\<close>, an optional sign, one or more digits.\<close>

definition scan_sign :: "jstring \<Rightarrow> bool \<times> jstring" where
  "scan_sign cs =
     (case cs of
        [] \<Rightarrow> (False, cs)
      | s # r \<Rightarrow> if s = 0x2D then (True, r) else if s = 0x2B then (False, r) else (False, cs))"

definition scan_exp :: "jstring \<Rightarrow> (int \<times> jstring) option" where
  "scan_exp cs =
     (case cs of
        [] \<Rightarrow> Some (0, cs)
      | c # cs' \<Rightarrow>
          if c = 0x65 \<or> c = 0x45 then
            (case scan_sign cs' of
               (neg, cs'') \<Rightarrow>
                 (case scan_digits cs'' of
                    (ds, rest) \<Rightarrow>
                      if ds = [] then None
                      else Some (if neg then - int (digits_val ds) else int (digits_val ds), rest)))
          else Some (0, cs))"

definition scan_number :: "jstring \<Rightarrow> ((int \<times> int) \<times> jstring) option" where
  "scan_number cs =
     (case (case cs of [] \<Rightarrow> (False, cs) | c # r \<Rightarrow> if c = 0x2D then (True, r) else (False, cs)) of
        (neg, cs1) \<Rightarrow>
          (case scan_int cs1 of
             None \<Rightarrow> None
           | Some (ip, cs2) \<Rightarrow>
               (case scan_frac cs2 of
                  None \<Rightarrow> None
                | Some (fp, cs3) \<Rightarrow>
                    (case scan_exp cs3 of
                       None \<Rightarrow> None
                     | Some (ex, cs4) \<Rightarrow>
                         Some ((if neg then - int (digits_val (ip @ fp))
                                else int (digits_val (ip @ fp)),
                                ex - int (length fp)), cs4)))))"

text \<open>\<open>strip_prefix w cs\<close> is the text after the word \<open>w\<close>, when \<open>cs\<close> starts with it.\<close>

fun strip_prefix :: "jstring \<Rightarrow> jstring \<Rightarrow> jstring option" where
  "strip_prefix [] cs = Some cs"
| "strip_prefix (w # ws) [] = None"
| "strip_prefix (w # ws) (c # cs) = (if w = c then strip_prefix ws cs else None)"

lemma scan_string_length:
  "scan_string acc cs = Some (s, rest) \<Longrightarrow> length rest < length cs"
proof (induction acc cs rule: scan_string.induct)
  case (1 acc)
  then show ?case by simp
next
  case (2 acc c cs)
  show ?case
  proof (cases "c = 0x22")
    case True
    with "2.prems" show ?thesis by simp
  next
    case quote: False
    show ?thesis
    proof (cases "c = 0x5C")
      case False
      with quote "2.prems" have "scan_string (acc @ [c]) cs = Some (s, rest)" "\<not> c < 0x20"
        by (auto split: if_splits)
      with "2.IH"(3) quote False have "length rest < length cs" by simp
      then show ?thesis by simp
    next
      case True
      with "2.prems" obtain e es where cs: "cs = e # es"
        by (cases cs) auto
      show ?thesis
      proof (cases "e = 0x75")
        case False
        with True cs "2.prems" obtain x where x: "escape_char e = Some x"
          "scan_string (acc @ [x]) es = Some (s, rest)"
          by (auto split: option.splits)
        with "2.IH"(2) [OF quote True cs False x(1)] have "length rest < length es" by simp
        with cs show ?thesis by simp
      next
        case u: True
        with True cs "2.prems" obtain h1 h2 h3 h4 r v where es: "es = h1 # h2 # h3 # h4 # r"
          and v: "hex4 h1 h2 h3 h4 = Some v" "scan_string (acc @ [v]) r = Some (s, rest)"
          by (auto split: list.splits option.splits)
        have "length rest < length r"
          using "2.IH"(1) quote True cs u es v by simp
        with cs es show ?thesis by simp
      qed
    qed
  qed
qed

lemma scan_digits_length: "scan_digits cs = (ds, rest) \<Longrightarrow> length rest \<le> length cs"
  by (auto simp: scan_digits_def length_dropWhile_le)

lemma scan_int_length: "scan_int cs = Some (ds, rest) \<Longrightarrow> length rest < length cs"
proof -
  assume a: "scan_int cs = Some (ds, rest)"
  then have eq: "ds = takeWhile is_digit cs" "rest = dropWhile is_digit cs" and ne: "ds \<noteq> []"
    by (auto simp: scan_int_def scan_digits_def split: if_splits)
  have "length (takeWhile is_digit cs @ dropWhile is_digit cs) = length cs"
    by simp
  then have "length ds + length rest = length cs"
    unfolding eq by (simp only: length_append)
  moreover from ne have "0 < length ds" by simp
  ultimately show ?thesis by linarith
qed

lemma scan_frac_length: "scan_frac cs = Some (ds, rest) \<Longrightarrow> length rest \<le> length cs"
  by (auto simp: scan_frac_def split: list.splits if_splits prod.splits
      dest!: scan_digits_length)

lemma scan_sign_length: "scan_sign cs = (neg, rest) \<Longrightarrow> length rest \<le> length cs"
  by (auto simp: scan_sign_def split: list.splits if_splits)

lemma scan_exp_length: "scan_exp cs = Some (ex, rest) \<Longrightarrow> length rest \<le> length cs"
  by (auto simp: scan_exp_def split: list.splits if_splits prod.splits
      dest!: scan_digits_length scan_sign_length)

lemma scan_number_length:
  "scan_number cs = Some (n, rest) \<Longrightarrow> length rest < length cs"
  by (auto simp: scan_number_def split: list.splits if_splits prod.splits option.splits
      dest!: scan_int_length scan_frac_length scan_exp_length)

lemma strip_prefix_length:
  "strip_prefix w cs = Some rest \<Longrightarrow> length rest + length w = length cs"
  by (induction w cs rule: strip_prefix.induct) (auto split: if_splits)

text \<open>The tokens of a text; \<open>None\<close> when some character starts no token.\<close>

function lex :: "jstring \<Rightarrow> token list option" where
  "lex [] = Some []"
| "lex (c # cs) =
     (if is_json_ws c then lex cs
      else if c = 0x7B then map_option ((#) LBrace) (lex cs)
      else if c = 0x7D then map_option ((#) RBrace) (lex cs)
      else if c = 0x5B then map_option ((#) LBracket) (lex cs)
      else if c = 0x5D then map_option ((#) RBracket) (lex cs)
      else if c = 0x3A then map_option ((#) Colon) (lex cs)
      else if c = 0x2C then map_option ((#) Comma) (lex cs)
      else if c = 0x22 then
        (case scan_string [] cs of
           None \<Rightarrow> None
         | Some (s, rest) \<Rightarrow> map_option ((#) (TStr s)) (lex rest))
      else if c = 0x2D \<or> is_digit c then
        (case scan_number (c # cs) of
           None \<Rightarrow> None
         | Some ((m, e), rest) \<Rightarrow> map_option ((#) (TNum m e)) (lex rest))
      else if c = 0x74 then
        (case strip_prefix (str ''rue'') cs of
           None \<Rightarrow> None
         | Some rest \<Rightarrow> map_option ((#) TTrue) (lex rest))
      else if c = 0x66 then
        (case strip_prefix (str ''alse'') cs of
           None \<Rightarrow> None
         | Some rest \<Rightarrow> map_option ((#) TFalse) (lex rest))
      else if c = 0x6E then
        (case strip_prefix (str ''ull'') cs of
           None \<Rightarrow> None
         | Some rest \<Rightarrow> map_option ((#) TNull) (lex rest))
      else None)"
  by pat_completeness auto
termination
proof (relation "measure length")
  show "wf (measure length)" by simp
qed (auto dest: scan_string_length scan_number_length strip_prefix_length)

text \<open>
  The grammar, as a pushdown automaton over the tokens. A frame of the stack is an
  array or an object under construction; an object's frame holds the name of the member
  whose value is being read.
\<close>

datatype frame =
    FArr "json list"
  | FObj "(jstring \<times> json) list" "jstring option"

datatype pstate =
    ExpectValue "frame list"
  | ExpectValueOrClose "frame list"
  | ExpectKeyOrClose "frame list"
  | ExpectKey "frame list"
  | ExpectColon "frame list"
  | AfterValue "frame list"
  | Finished json
  | Failed

text \<open>A value is complete: it is the whole text's, an array's next element or a member's.\<close>

fun deliver :: "json \<Rightarrow> frame list \<Rightarrow> pstate" where
  "deliver v [] = Finished v"
| "deliver v (FArr vs # st) = AfterValue (FArr (vs @ [v]) # st)"
| "deliver v (FObj ms (Some k) # st) = AfterValue (FObj (ms @ [(k, v)]) None # st)"
| "deliver v (FObj ms None # st) = Failed"

fun begin_value :: "token \<Rightarrow> frame list \<Rightarrow> pstate" where
  "begin_value (TStr s) st = deliver (JStr s) st"
| "begin_value (TNum m e) st = deliver (JNum m e) st"
| "begin_value TTrue st = deliver (JBool True) st"
| "begin_value TFalse st = deliver (JBool False) st"
| "begin_value TNull st = deliver JNull st"
| "begin_value LBracket st = ExpectValueOrClose (FArr [] # st)"
| "begin_value LBrace st = ExpectKeyOrClose (FObj [] None # st)"
| "begin_value _ st = Failed"

fun pstep :: "pstate \<Rightarrow> token \<Rightarrow> pstate" where
  "pstep (ExpectValue st) t = begin_value t st"
| "pstep (ExpectValueOrClose (FArr vs # st)) RBracket = deliver (JArr vs) st"
| "pstep (ExpectValueOrClose st) t = begin_value t st"
| "pstep (ExpectKeyOrClose (FObj ms None # st)) RBrace = deliver (JObj ms) st"
| "pstep (ExpectKeyOrClose (FObj ms None # st)) (TStr k) = ExpectColon (FObj ms (Some k) # st)"
| "pstep (ExpectKey (FObj ms None # st)) (TStr k) = ExpectColon (FObj ms (Some k) # st)"
| "pstep (ExpectColon st) Colon = ExpectValue st"
| "pstep (AfterValue (FArr vs # st)) Comma = ExpectValue (FArr vs # st)"
| "pstep (AfterValue (FArr vs # st)) RBracket = deliver (JArr vs) st"
| "pstep (AfterValue (FObj ms None # st)) Comma = ExpectKey (FObj ms None # st)"
| "pstep (AfterValue (FObj ms None # st)) RBrace = deliver (JObj ms) st"
| "pstep _ _ = Failed"

text \<open>
  \<^verbatim>\<open>JSON.parse(text)\<close>: the value of the text, or \<open>None\<close> where the engine throws a
  \<^verbatim>\<open>SyntaxError\<close>.
\<close>

definition JSON_parse :: "jstring \<Rightarrow> json option" where
  "JSON_parse text =
     (case lex text of
        None \<Rightarrow> None
      | Some ts \<Rightarrow>
          (case foldl pstep (ExpectValue []) ts of
             Finished v \<Rightarrow> Some v
           | _ \<Rightarrow> None))"

section \<open>Values of the engine\<close>

text \<open>
  \<^verbatim>\<open>v.key\<close> for a value \<open>v\<close> other than \<^verbatim>\<open>null\<close> that \<^verbatim>\<open>JSON.parse\<close> built, and a name
  that no built-in prototype defines (\<^verbatim>\<open>prompt\<close>, \<^verbatim>\<open>response\<close>, \<^verbatim>\<open>done\<close>): the last
  member of that name when \<open>v\<close> is an object, and \<^verbatim>\<open>undefined\<close> (\<open>None\<close>) otherwise.
\<close>

definition Get :: "json \<Rightarrow> jstring \<Rightarrow> json option" where
  "Get v key = (case v of JObj ms \<Rightarrow> map_of (rev ms) key | _ \<Rightarrow> None)"

text \<open>
  The number \<open>m * 10 ^ e\<close> is read as the nearest double, which is zero exactly when
  the number is at most half the least positive double, \<open>2 ^ -1075\<close>, in magnitude.
\<close>

definition rounds_to_zero :: "int \<Rightarrow> int \<Rightarrow> bool" where
  "rounds_to_zero m e \<longleftrightarrow> m = 0 \<or> (e < 0 \<and> \<bar>m\<bar> * 2 ^ 1075 \<le> 10 ^ nat (- e))"

text \<open>The truth value of a condition: \<^verbatim>\<open>if (v)\<close>, \<^verbatim>\<open>!v\<close>.\<close>

fun ToBoolean :: "json \<Rightarrow> bool" where
  "ToBoolean JNull = False"
| "ToBoolean (JBool b) = b"
| "ToBoolean (JNum m e) = (\<not> rounds_to_zero m e)"
| "ToBoolean (JStr s) = (s \<noteq> [])"
| "ToBoolean (JArr vs) = True"
| "ToBoolean (JObj ms) = True"

text \<open>
  What the engine computes and this theory does not: the text of a number, and the
  messages of the errors that the engine itself throws.
\<close>

datatype engine_error =
    JSON_SyntaxError jstring
  | TypeError_destructure_null
  | TypeError_property_of_null
  | TypeError_to_primitive

record runtime =
  Number_toString :: "int \<Rightarrow> int \<Rightarrow> jstring"
  error_message :: "engine_error \<Rightarrow> jstring"

text \<open>
  A thrown value: an \<^verbatim>\<open>Error\<close> object with its message (\<^verbatim>\<open>new Error(message)\<close>, or the
  rejection of a network operation), an error of the engine, or a value that is not an
  \<^verbatim>\<open>Error\<close>.
\<close>

datatype thrown =
    Error jstring
  | EngineError engine_error
  | NotAnError

fun join_comma :: "jstring list \<Rightarrow> jstring" where
  "join_comma [] = []"
| "join_comma [s] = s"
| "join_comma (s # t # ss) = s @ 0x2C # join_comma (t # ss)"

text \<open>
  The string appended by \<^verbatim>\<open>fullResponse += v\<close>; \<open>None\<close> where the conversion throws a
  \<^verbatim>\<open>TypeError\<close>. An array is its elements joined by commas, \<^verbatim>\<open>null\<close> elements being
  empty; an object is \<^verbatim>\<open>[object Object]\<close>, unless a member named \<^verbatim>\<open>toString\<close> hides the
  method of that name, in which case no conversion exists.
\<close>

fun ToString :: "runtime \<Rightarrow> json \<Rightarrow> jstring option" where
  "ToString rt JNull = Some (str ''null'')"
| "ToString rt (JBool b) = Some (if b then str ''true'' else str ''false'')"
| "ToString rt (JNum m e) = Some (Number_toString rt m e)"
| "ToString rt (JStr s) = Some s"
| "ToString rt (JArr vs) =
     map_option join_comma
       (those (map (\<lambda>v. if v = JNull then Some [] else ToString rt v) vs))"
| "ToString rt (JObj ms) =
     (if str ''toString'' \<in> fst ` set ms then None else Some (str ''[object Object]''))"

text \<open>A non-negative integer in a template literal: its decimal digits.\<close>

fun decimal :: "nat \<Rightarrow> jstring" where
  "decimal n = (if n < 10 then [0x30 + n] else decimal (n div 10) @ [0x30 + n mod 10])"

declare decimal.simps [simp del]

section \<open>The handler and its environment\<close>

text \<open>
  The inbound request: its method and the bytes of its body; the handler reads nothing
  else of it. The outbound response: its status, its headers, and the value whose
  \<^verbatim>\<open>JSON.stringify\<close> text is its body (\<open>None\<close> for the \<^verbatim>\<open>null\<close> body).
\<close>

record request =
  req_method :: jstring
  req_body :: string

record response =
  resp_status :: nat
  resp_headers :: "(jstring \<times> jstring) list"
  resp_body :: "json option"

text \<open>
  The upstream service, as the handler sees it. \<^verbatim>\<open>fetch\<close> rejects, or resolves to a
  response with a status and a body; the body is absent (\<^verbatim>\<open>response.body\<close> is \<^verbatim>\<open>null\<close>) or
  a stream that delivers chunks of bytes and then closes (\<open>None\<close>) or fails.
\<close>

datatype stream = Stream "string list" "thrown option"

record upstream_response =
  up_status :: nat
  up_body :: "stream option"

datatype upstream =
    Rejects thrown
  | Resolves upstream_response

text \<open>
  What the handler does besides answering: the call to the upstream service, with the
  URL and the value whose \<^verbatim>\<open>JSON.stringify\<close> text is the call's body, and the lines
  written by \<^verbatim>\<open>console.error\<close>.
\<close>

datatype effect =
    Fetch jstring json
  | ConsoleError jstring thrown

record cors =
  origin :: jstring
  optionsSuccessStatus :: nat

definition corsOptions :: cors where
  "corsOptions = \<lparr>origin = str ''http://localhost:3000'', optionsSuccessStatus = 200\<rparr>"

definition preflight_headers :: "(jstring \<times> jstring) list" where
  "preflight_headers =
     [(str ''Access-Control-Allow-Origin'', origin corsOptions),
      (str ''Access-Control-Allow-Methods'', str ''POST, OPTIONS''),
      (str ''Access-Control-Allow-Headers'', str ''Content-Type'')]"

definition headers :: "(jstring \<times> jstring) list" where
  "headers =
     [(str ''Access-Control-Allow-Origin'', origin corsOptions),
      (str ''Content-Type'', str ''application/json'')]"

definition ollamaUrl :: jstring where
  "ollamaUrl = str ''http://localhost:11434/api/generate''"

definition ollamaRequestBody :: "json \<Rightarrow> json" where
  "ollamaRequestBody prompt =
     JObj [(str ''model'', JStr (str ''neural-chat'')), (str ''prompt'', prompt)]"

text \<open>\<^verbatim>\<open>await req.json()\<close>: the body, decoded and parsed.\<close>

definition req_json :: "'a request_scheme \<Rightarrow> thrown + json" where
  "req_json req =
     (case JSON_parse (TextDecoder_decode (req_body req)) of
        None \<Rightarrow> Inl (EngineError (JSON_SyntaxError (TextDecoder_decode (req_body req))))
      | Some v \<Rightarrow> Inr v)"

text \<open>\<^verbatim>\<open>const { prompt } = requestBody\<close>; \<open>None\<close> is \<^verbatim>\<open>undefined\<close>.\<close>

definition destructure_prompt :: "json \<Rightarrow> thrown + json option" where
  "destructure_prompt requestBody =
     (if requestBody = JNull then Inl (EngineError TypeError_destructure_null)
      else Inr (Get requestBody (str ''prompt'')))"

definition ok :: "upstream_response \<Rightarrow> bool" where
  "ok response \<longleftrightarrow> 200 \<le> up_status response \<and> up_status response \<le> 299"

text \<open>\<^verbatim>\<open>await response.text()\<close>: the whole body, decoded.\<close>

definition response_text :: "upstream_response \<Rightarrow> thrown + jstring" where
  "response_text response =
     (case up_body response of
        None \<Rightarrow> Inr []
      | Some (Stream chunks None) \<Rightarrow> Inr (TextDecoder_decode (concat chunks))
      | Some (Stream chunks (Some e)) \<Rightarrow> Inl e)"

subsection \<open>The aggregation loop\<close>

text \<open>
  The body of the inner \<^verbatim>\<open>try\<close> once the line is parsed: append the record's
  \<^verbatim>\<open>response\<close> when that is truthy, then look at its \<^verbatim>\<open>done\<close>, for which nothing is
  done. The result is the new \<^verbatim>\<open>fullResponse\<close>, or the value thrown.
\<close>

definition try_record :: "runtime \<Rightarrow> jstring \<Rightarrow> json \<Rightarrow> thrown + jstring" where
  "try_record rt fullResponse jsonResponse =
     (if jsonResponse = JNull then Inl (EngineError TypeError_property_of_null)
      else
        (case
           (case Get jsonResponse (str ''response'') of
              None \<Rightarrow> Inr fullResponse
            | Some r \<Rightarrow>
                if ToBoolean r then
                  (case ToString rt r of
                     None \<Rightarrow> Inl (EngineError TypeError_to_primitive)
                   | Some s \<Rightarrow> Inr (fullResponse @ s))
                else Inr fullResponse)
         of
           Inl e \<Rightarrow> Inl e
         | Inr fullResponse' \<Rightarrow>
             (case Get jsonResponse (str ''done'') of
                None \<Rightarrow> Inr fullResponse'
              | Some d \<Rightarrow> if ToBoolean d then Inr fullResponse' else Inr fullResponse')))"

text \<open>The body of the inner \<^verbatim>\<open>try\<close>, for one line.\<close>

definition try_line :: "runtime \<Rightarrow> jstring \<Rightarrow> jstring \<Rightarrow> thrown + jstring" where
  "try_line rt fullResponse line =
     (case JSON_parse line of
        None \<Rightarrow> Inl (EngineError (JSON_SyntaxError line))
      | Some jsonResponse \<Rightarrow> try_record rt fullResponse jsonResponse)"

text \<open>
  One turn of \<^verbatim>\<open>for (const line of lines)\<close>. The state is \<^verbatim>\<open>fullResponse\<close> and what
  \<^verbatim>\<open>console.error\<close> has written; a value thrown in the \<^verbatim>\<open>try\<close> is written there and the
  loop goes on.
\<close>

definition process_line ::
  "runtime \<Rightarrow> jstring \<times> effect list \<Rightarrow> jstring \<Rightarrow> jstring \<times> effect list" where
  "process_line rt st line =
     (case st of
        (fullResponse, out) \<Rightarrow>
          if trim line \<noteq> [] then
            (case try_line rt fullResponse line of
               Inr fullResponse' \<Rightarrow> (fullResponse', out)
             | Inl parseError \<Rightarrow>
                 (fullResponse, out @ [ConsoleError (str ''Error parsing JSON:'') parseError]))
          else (fullResponse, out))"

text \<open>One turn of \<^verbatim>\<open>while (true)\<close> for a chunk that was read: decode, split, process.\<close>

definition process_chunk ::
  "runtime \<Rightarrow> jstring \<times> effect list \<Rightarrow> string \<Rightarrow> jstring \<times> effect list" where
  "process_chunk rt st value =
     foldl (process_line rt) st (split_nl (TextDecoder_decode value))"

fun read_loop ::
  "runtime \<Rightarrow> jstring \<times> effect list \<Rightarrow> string list \<Rightarrow> jstring \<times> effect list" where
  "read_loop rt st [] = st"
| "read_loop rt st (value # rest) = read_loop rt (process_chunk rt st value) rest"

text \<open>
  The loop over a stream: it ends when the stream closes, with \<^verbatim>\<open>fullResponse\<close>, or
  when a read fails, with the failure.
\<close>

fun read_stream :: "runtime \<Rightarrow> stream \<Rightarrow> effect list \<times> (thrown + jstring)" where
  "read_stream rt (Stream chunks ending) =
     (case read_loop rt ([], []) chunks of
        (fullResponse, out) \<Rightarrow>
          (out, case ending of None \<Rightarrow> Inr fullResponse | Some e \<Rightarrow> Inl e))"

subsection \<open>The handler\<close>

text \<open>
  The outer \<^verbatim>\<open>try\<close> block: its effects, and \<^verbatim>\<open>fullResponse\<close> or the value thrown.
\<close>

definition try_block ::
  "runtime \<Rightarrow> 'a request_scheme \<Rightarrow> upstream \<Rightarrow> effect list \<times> (thrown + jstring)" where
  "try_block rt req up =
     (case req_json req of
        Inl e \<Rightarrow> ([], Inl e)
      | Inr requestBody \<Rightarrow>
          (case destructure_prompt requestBody of
             Inl e \<Rightarrow> ([], Inl e)
           | Inr None \<Rightarrow> ([], Inl (Error (str ''Prompt is required'')))
           | Inr (Some prompt) \<Rightarrow>
               if \<not> ToBoolean prompt then ([], Inl (Error (str ''Prompt is required'')))
               else
                 (case up of
                    Rejects e \<Rightarrow> ([Fetch ollamaUrl (ollamaRequestBody prompt)], Inl e)
                  | Resolves response \<Rightarrow>
                      if \<not> ok response then
                        (case response_text response of
                           Inl e \<Rightarrow> ([Fetch ollamaUrl (ollamaRequestBody prompt)], Inl e)
                         | Inr errorText \<Rightarrow>
                             ([Fetch ollamaUrl (ollamaRequestBody prompt)],
                              Inl (Error (str ''Ollama API error: '' @
                                decimal (up_status response) @ str '', '' @ errorText))))
                      else
                        (case up_body response of
                           None \<Rightarrow>
                             ([Fetch ollamaUrl (ollamaRequestBody prompt)],
                              Inl (Error (str ''Unable to read response body'')))
                         | Some reader \<Rightarrow>
                             (case read_stream rt reader of
                                (out, r) \<Rightarrow>
                                  (Fetch ollamaUrl (ollamaRequestBody prompt) # out, r))))))"

text \<open>The message of the \<^verbatim>\<open>catch\<close> block.\<close>

definition catch_message :: "runtime \<Rightarrow> thrown \<Rightarrow> jstring" where
  "catch_message rt error =
     (case error of
        Error message \<Rightarrow> message
      | EngineError e \<Rightarrow> error_message rt e
      | NotAnError \<Rightarrow> str ''An unknown error occurred'')"

text \<open>
  The function given to \<^verbatim>\<open>Deno.serve\<close>: the effects of handling a request, in order,
  and the response.
\<close>

definition handler ::
  "runtime \<Rightarrow> 'a request_scheme \<Rightarrow> upstream \<Rightarrow> effect list \<times> response" where
  "handler rt req up =
     (if req_method req = str ''OPTIONS'' then
        ([], \<lparr>resp_status = 204, resp_headers = preflight_headers, resp_body = None\<rparr>)
      else if req_method req \<noteq> str ''POST'' then
        ([], \<lparr>resp_status = 405, resp_headers = headers,
              resp_body = Some (JObj [(str ''error'', JStr (str ''Method Not Allowed''))])\<rparr>)
      else
        (case try_block rt req up of
           (out, Inr fullResponse) \<Rightarrow>
             (out, \<lparr>resp_status = 200, resp_headers = headers,
                    resp_body = Some (JObj [(str ''response'', JStr fullResponse)])\<rparr>)
         | (out, Inl error) \<Rightarrow>
             (out @ [ConsoleError (str ''Error:'') error],
              \<lparr>resp_status = 500, resp_headers = headers,
               resp_body = Some (JObj [(str ''error'', JStr (catch_message rt error))])\<rparr>)))"

subsection \<open>The server and the state of the module\<close>





section \<open>The decoder and the aggregator, as the loop runs them\<close>

text \<open>
  The lines of a chunk that the loop hands to \<^verbatim>\<open>JSON.parse\<close>: the pieces of its text
  that are not blank. The lines of a stream are those of its chunks, chunk after chunk;
  its decoded records are the values of the lines that parse.
\<close>

definition chunk_lines :: "string \<Rightarrow> jstring list" where
  "chunk_lines value = filter (\<lambda>line. trim line \<noteq> []) (split_nl (TextDecoder_decode value))"

definition stream_lines :: "string list \<Rightarrow> jstring list" where
  "stream_lines chunks = concat (map chunk_lines chunks)"

definition decoded_records :: "string list \<Rightarrow> json list" where
  "decoded_records chunks = List.map_filter JSON_parse (stream_lines chunks)"

text \<open>What a parsed record leaves in \<^verbatim>\<open>fullResponse\<close>, a thrown value being caught.\<close>

definition add_record :: "runtime \<Rightarrow> jstring \<Rightarrow> json \<Rightarrow> jstring" where
  "add_record rt fullResponse jsonResponse =
     (case try_record rt fullResponse jsonResponse of
        Inr fullResponse' \<Rightarrow> fullResponse'
      | Inl e \<Rightarrow> fullResponse)"

text \<open>
  The text that a record adds to \<^verbatim>\<open>fullResponse\<close>, as a function of its \<^verbatim>\<open>response\<close>
  member alone (\<open>None\<close> when it has none).
\<close>

definition fragment :: "runtime \<Rightarrow> json option \<Rightarrow> jstring" where
  "fragment rt r =
     (case r of
        None \<Rightarrow> []
      | Some v \<Rightarrow>
          if ToBoolean v then (case ToString rt v of None \<Rightarrow> [] | Some s \<Rightarrow> s) else [])"

text \<open>The chunk's text begins with a byte order mark, which the decoder drops.\<close>

definition starts_with_BOM :: "string \<Rightarrow> bool" where
  "starts_with_BOM bytes =
     (case utf8_decode 0 0 0x80 0xBF (map of_char bytes) of
        [] \<Rightarrow> False
      | c # cs \<Rightarrow> c = 0xFEFF)"

text \<open>
  A record of the upstream service (the interface \<^verbatim>\<open>OllamaResponse\<close>; the handler reads
  \<^verbatim>\<open>response\<close> and \<^verbatim>\<open>done\<close> only): a value is one when it is an object whose
  \<^verbatim>\<open>response\<close> is a string and whose \<^verbatim>\<open>done\<close> is a boolean.
\<close>

record ollama_response =
  response :: jstring
  is_done :: bool

definition as_record :: "json \<Rightarrow> ollama_response option" where
  "as_record v =
     (case (Get v (str ''response''), Get v (str ''done'')) of
        (Some (JStr s), Some (JBool d)) \<Rightarrow> Some \<lparr>response = s, is_done = d\<rparr>
      | _ \<Rightarrow> None)"

section \<open>Properties\<close>

subsection \<open>Line terminators and chunk boundaries\<close>

lemma split_nl_nonempty: "split_nl s \<noteq> []"
  by (induction s) (auto split: list.splits)

text \<open>
  A line feed ends whatever sequence the decoder was in, and leaves it in its initial
  state.
\<close>

lemma utf8_decode_LF:
  "needed = 0 \<or> 10 < lo \<Longrightarrow>
   utf8_decode needed cp lo hi (x @ 10 # y) =
   utf8_decode needed cp lo hi x @ 10 # utf8_decode 0 0 0x80 0xBF y"
  by (induction needed cp lo hi x rule: utf8_decode.induct) auto

lemma split_nl_LF: "split_nl (a @ 10 # b) = split_nl a @ split_nl b"
  by (induction a) (auto split: list.splits simp: split_nl_nonempty)

lemma strip_bom_LF: "strip_bom (a @ 10 # b) = strip_bom a @ 10 # b"
  by (cases a) auto

lemma utf16_LF: "utf16 10 = [10]"
  by (simp add: utf16_def)

lemma TextDecoder_decode_LF:
  assumes "\<not> starts_with_BOM y"
  shows "TextDecoder_decode (x @ CHR 0x0A # y) = TextDecoder_decode x @ 10 # TextDecoder_decode y"
proof -
  have "strip_bom (utf8_decode 0 0 0x80 0xBF (map of_char y)) = utf8_decode 0 0 0x80 0xBF (map of_char y)"
    using assms by (cases "utf8_decode 0 0 0x80 0xBF (map of_char y) :: nat list") (auto simp: starts_with_BOM_def)
  then show ?thesis
    by (simp add: TextDecoder_decode_def utf8_decode_LF strip_bom_LF utf16_LF)
qed

lemma trim_Nil: "trim [] = []"
  by (simp add: trim_def)

lemma chunk_lines_Nil: "chunk_lines [] = []"
  by (simp add: chunk_lines_def TextDecoder_decode_def trim_Nil)

lemma not_starts_with_BOM_Nil: "\<not> starts_with_BOM []"
  by (simp add: starts_with_BOM_def)

lemma chunk_lines_LF:
  "\<not> starts_with_BOM y \<Longrightarrow> chunk_lines (x @ CHR 0x0A # y) = chunk_lines x @ chunk_lines y"
  by (simp add: chunk_lines_def TextDecoder_decode_LF split_nl_LF)

lemma chunk_lines_append:
  assumes "c = [] \<or> last c = CHR 0x0A" and "\<not> starts_with_BOM d"
  shows "chunk_lines (c @ d) = chunk_lines c @ chunk_lines d"
proof (cases "c = []")
  case True
  then show ?thesis by (simp add: chunk_lines_Nil)
next
  case False
  with assms(1) obtain x where c: "c = x @ [CHR 0x0A]"
    by (metis append_butlast_last_id)
  have "chunk_lines (x @ [CHR 0x0A]) = chunk_lines x"
    using chunk_lines_LF [of "[]" x] by (simp add: not_starts_with_BOM_Nil chunk_lines_Nil)
  with c assms(2) show ?thesis
    by (simp add: chunk_lines_LF)
qed


subsection \<open>The loop as a fold over the lines and the records\<close>

lemma read_loop_foldl:
  "read_loop rt st chunks =
   foldl (process_line rt) st (concat (map (\<lambda>value. split_nl (TextDecoder_decode value)) chunks))"
  by (induction chunks arbitrary: st) (simp_all add: process_chunk_def)

lemma process_line_blank: "trim line = [] \<Longrightarrow> process_line rt st line = st"
  by (simp add: process_line_def split: prod.splits)

lemma foldl_process_line_filter:
  "foldl (process_line rt) st (filter (\<lambda>line. trim line \<noteq> []) ls) = foldl (process_line rt) st ls"
  by (induction ls arbitrary: st) (simp_all add: process_line_blank)

lemma read_loop_stream_lines:
  "read_loop rt st chunks = foldl (process_line rt) st (stream_lines chunks)"
proof -
  have "stream_lines chunks =
    filter (\<lambda>line. trim line \<noteq> []) (concat (map (\<lambda>value. split_nl (TextDecoder_decode value)) chunks))"
    by (simp add: stream_lines_def chunk_lines_def [abs_def] filter_concat comp_def)
  then show ?thesis
    by (simp add: read_loop_foldl foldl_process_line_filter)
qed

lemma fst_process_line:
  "trim line \<noteq> [] \<Longrightarrow>
   fst (process_line rt (acc, out) line) =
   (case JSON_parse line of None \<Rightarrow> acc | Some v \<Rightarrow> add_record rt acc v)"
  by (simp add: process_line_def try_line_def add_record_def split: option.splits sum.splits)

lemma fst_foldl_process_line:
  "\<forall>line \<in> set ls. trim line \<noteq> [] \<Longrightarrow>
   fst (foldl (process_line rt) (acc, out) ls) =
   foldl (add_record rt) acc (List.map_filter JSON_parse ls)"
proof (induction ls arbitrary: acc out)
  case Nil
  then show ?case by (simp add: List.map_filter_simps)
next
  case (Cons l ls)
  obtain acc' out' where st: "process_line rt (acc, out) l = (acc', out')"
    by (cases "process_line rt (acc, out) l")
  from Cons.prems have "trim l \<noteq> []" by simp
  then have acc': "acc' = (case JSON_parse l of None \<Rightarrow> acc | Some v \<Rightarrow> add_record rt acc v)"
    using fst_process_line [of l rt acc out] st by simp
  from Cons.prems have "\<forall>line \<in> set ls. trim line \<noteq> []" by simp
  from Cons.IH [OF this, of acc' out'] show ?case
    by (simp add: st acc' List.map_filter_simps split: option.splits)
qed

lemma stream_lines_nonblank: "\<forall>line \<in> set (stream_lines chunks). trim line \<noteq> []"
  by (auto simp: stream_lines_def chunk_lines_def)

lemma fst_read_loop:
  "fst (read_loop rt (acc, out) chunks) = foldl (add_record rt) acc (decoded_records chunks)"
  by (simp add: read_loop_stream_lines decoded_records_def fst_foldl_process_line
      stream_lines_nonblank)

subsection \<open>The handler on a stream that closes\<close>

lemma handler_streams:
  assumes "req_method req = str ''POST''"
    and "req_json req = Inr requestBody"
    and "Get requestBody (str ''prompt'') = Some prompt"
    and "ToBoolean prompt"
    and "ok resp"
    and "up_body resp = Some (Stream chunks None)"
  shows "handler rt req (Resolves resp) =
    (Fetch ollamaUrl (ollamaRequestBody prompt) # snd (read_loop rt ([], []) chunks),
     \<lparr>resp_status = 200, resp_headers = headers,
      resp_body = Some (JObj [(str ''response'', JStr (fst (read_loop rt ([], []) chunks)))])\<rparr>)"
proof -
  from assms(3) have "requestBody \<noteq> JNull"
    by (auto simp: Get_def)
  with assms have "try_block rt req (Resolves resp) =
    (Fetch ollamaUrl (ollamaRequestBody prompt) # snd (read_loop rt ([], []) chunks),
     Inr (fst (read_loop rt ([], []) chunks)))"
    by (simp add: try_block_def destructure_prompt_def split: prod.splits)
  moreover have "str ''POST'' \<noteq> str ''OPTIONS''"
    by (simp add: str_def)
  ultimately show ?thesis
    using assms(1) by (simp add: handler_def)
qed

lemma starts_with_BOM_LF: "starts_with_BOM (x @ CHR 0x0A # y) = starts_with_BOM x"
proof -
  have "starts_with_BOM (x @ CHR 0x0A # z) = starts_with_BOM x" for z
    by (cases "utf8_decode 0 0 0x80 0xBF (map of_char x) :: nat list")
      (simp_all add: starts_with_BOM_def utf8_decode_LF)
  then show ?thesis .
qed

lemma starts_with_BOM_append:
  assumes "c \<noteq> []" and "last c = CHR 0x0A"
  shows "starts_with_BOM (c @ d) = starts_with_BOM c"
proof -
  from assms obtain x where c: "c = x @ [CHR 0x0A]"
    by (metis append_butlast_last_id)
  show ?thesis
    using starts_with_BOM_LF [of x d] starts_with_BOM_LF [of x "[]"] by (simp add: c)
qed

text \<open>
  Chunks cut at line terminators: every chunk but the last ends with a line feed, and no
  chunk but the first begins with a byte order mark. Then the lines of the stream are
  those of its bytes taken as one chunk.
\<close>

lemma stream_lines_aligned:
  assumes "\<forall>c \<in> set (butlast chunks). c \<noteq> [] \<and> last c = CHR 0x0A"
    and "\<forall>c \<in> set (tl chunks). \<not> starts_with_BOM c"
  shows "stream_lines chunks = chunk_lines (concat chunks)"
  using assms
proof (induction chunks)
  case Nil
  then show ?case by (simp add: stream_lines_def chunk_lines_Nil)
next
  case (Cons c rest)
  show ?case
  proof (cases rest)
    case Nil
    then show ?thesis by (simp add: stream_lines_def)
  next
    case (Cons d rest')
    from Cons.prems(1) Cons have c: "c \<noteq> []" "last c = CHR 0x0A"
      by simp_all
    from Cons.prems(2) Cons have d: "\<not> starts_with_BOM d"
      by simp
    have "\<not> starts_with_BOM (concat rest)"
    proof (cases rest')
      case Nil
      with Cons d show ?thesis by simp
    next
      case (Cons e rest'')
      with Cons.prems(1) \<open>rest = d # rest'\<close> have "d \<noteq> []" "last d = CHR 0x0A"
        by simp_all
      then have "starts_with_BOM (d @ concat rest') = starts_with_BOM d"
        by (rule starts_with_BOM_append)
      with d \<open>rest = d # rest'\<close> show ?thesis by simp
    qed
    then have "chunk_lines (c @ concat rest) = chunk_lines c @ chunk_lines (concat rest)"
      using c by (simp add: chunk_lines_append)
    moreover have "stream_lines rest = chunk_lines (concat rest)"
    proof (rule Cons.IH)
      show "\<forall>c \<in> set (butlast rest). c \<noteq> [] \<and> last c = CHR 0x0A"
        using Cons.prems(1) Cons by simp
      show "\<forall>c \<in> set (tl rest). \<not> starts_with_BOM c"
        using Cons.prems(2) Cons by simp
    qed
    ultimately show ?thesis
      by (simp add: stream_lines_def)
  qed
qed

subsection \<open>Records, fragments and the console\<close>

lemma add_record_fragment:
  "add_record rt acc v = acc @ fragment rt (Get v (str ''response''))"
proof (cases "v = JNull")
  case True
  then show ?thesis
    by (simp add: add_record_def try_record_def fragment_def Get_def)
next
  case False
  then show ?thesis
    by (simp add: add_record_def try_record_def fragment_def split: option.splits)
qed

lemma foldl_add_record:
  "foldl (add_record rt) acc vs =
   acc @ concat (map (\<lambda>v. fragment rt (Get v (str ''response''))) vs)"
  by (induction vs arbitrary: acc) (simp_all add: add_record_fragment)






lemma as_record_response:
  "as_record v = Some r \<Longrightarrow> Get v (str ''response'') = Some (JStr (response r))"
  by (cases "Get v (str ''response'')"; cases "Get v (str ''done'')")
    (auto simp: as_record_def split: json.splits)

lemma add_record_as_record:
  "as_record v = Some r \<Longrightarrow> add_record rt acc v = acc @ response r"
  by (simp add: add_record_fragment as_record_response fragment_def)

lemma foldl_add_record_records:
  "map (\<lambda>line. Option.bind (JSON_parse line) as_record) ls = map Some rs \<Longrightarrow>
   foldl (add_record rt) acc (List.map_filter JSON_parse ls) = acc @ concat (map response rs)"
proof (induction ls arbitrary: rs acc)
  case Nil
  then show ?case by (simp add: List.map_filter_simps)
next
  case (Cons l ls)
  then obtain r rs' where rs: "rs = r # rs'"
    and l: "Option.bind (JSON_parse l) as_record = Some r"
    and ls: "map (\<lambda>line. Option.bind (JSON_parse line) as_record) ls = map Some rs'"
    by (cases rs) auto
  from l obtain v where v: "JSON_parse l = Some v" "as_record v = Some r"
    by (cases "JSON_parse l") auto
  show ?case
    using Cons.IH [OF ls, of "acc @ response r"] v
    by (simp add: rs List.map_filter_simps add_record_as_record)
qed

subsection \<open>The server\<close>





text \<open>Literals and concrete inputs are evaluated with these equations.\<close>

lemmas eval_defs =
  str_def JSON_parse_def is_json_ws_def is_digit_def hex4_def hex_val_def escape_char_def
  TextDecoder_decode_def utf16_def req_json_def Get_def

lemmas line_defs =
  stream_lines_def chunk_lines_def TextDecoder_decode_def utf16_def trim_def is_js_space_def
  str_def

lemma str_eq_iff [simp]: "str a = str b \<longleftrightarrow> a = b"
  by (simp add: str_def inj_map_eq_map inj_on_def)

lemma str_Nil_iff [simp]: "str a = [] \<longleftrightarrow> a = []"
  by (simp add: str_def)

lemma str_append [simp]: "str a @ str b = str (a @ b)"
  by (simp add: str_def)

lemma POST_neq_OPTIONS: "str ''POST'' \<noteq> str ''OPTIONS''"
  by simp

subsection \<open>Decimal digits\<close>

text \<open>
  \<open>decimal n\<close> is the string of digits, with no leading zero, whose value is \<open>n\<close>; the
  value of a string of digits is the lexer's \<open>digits_val\<close>.
\<close>

lemma digits_val_snoc: "digits_val (ds @ [c]) = 10 * digits_val ds + (c - 0x30)"
  by (simp add: digits_val_def)

lemma decimal_nonempty: "decimal n \<noteq> []"
  by (subst decimal.simps) simp

lemma decimal_value: "digits_val (decimal n) = n"
proof (induction n rule: decimal.induct)
  case (1 n)
  show ?case
  proof (cases "n < 10")
    case True
    then show ?thesis
      by (subst decimal.simps) (simp add: digits_val_def)
  next
    case False
    with 1 have "digits_val (decimal (n div 10)) = n div 10" by simp
    with False show ?thesis
      by (subst decimal.simps) (simp add: digits_val_snoc)
  qed
qed

lemma decimal_digits: "list_all is_digit (decimal n)"
proof (induction n rule: decimal.induct)
  case (1 n)
  show ?case
  proof (cases "n < 10")
    case True
    then show ?thesis
      by (subst decimal.simps) (simp add: is_digit_def)
  next
    case False
    with 1 have "list_all is_digit (decimal (n div 10))" by simp
    moreover have "n mod 10 < 10" by simp
    ultimately show ?thesis
      using False by (subst decimal.simps) (simp add: is_digit_def)
  qed
qed

lemma decimal_no_leading_zero: "0 < n \<Longrightarrow> hd (decimal n) \<noteq> 0x30"
proof (induction n rule: decimal.induct)
  case (1 n)
  show ?case
  proof (cases "n < 10")
    case True
    with "1.prems" show ?thesis
      by (subst decimal.simps) simp
  next
    case False
    then have "0 < n div 10" by simp
    with 1 False have "hd (decimal (n div 10)) \<noteq> 0x30" by simp
    with False show ?thesis
      by (subst decimal.simps) (simp add: decimal_nonempty)
  qed
qed

text \<open>
  The stream of the examples: two records, \<^verbatim>\<open>Hel\<close> and \<^verbatim>\<open>lo\<close>, each on a line of its
  own.
\<close>

lemma lines_Hel_lo:
  "chunk_lines ''{\"response\":\"Hel\",\"done\":false}\<newline>{\"response\":\"lo\",\"done\":true}\<newline>'' =
   [str ''{\"response\":\"Hel\",\"done\":false}'', str ''{\"response\":\"lo\",\"done\":true}'']"
  by (simp add: line_defs)

lemma parse_Hel:
  "JSON_parse (str ''{\"response\":\"Hel\",\"done\":false}'') =
   Some (JObj [(str ''response'', JStr (str ''Hel'')), (str ''done'', JBool False)])"
  by (simp add: eval_defs)

lemma parse_lo:
  "JSON_parse (str ''{\"response\":\"lo\",\"done\":true}'') =
   Some (JObj [(str ''response'', JStr (str ''lo'')), (str ''done'', JBool True)])"
  by (simp add: eval_defs)

lemma not_BOM_lo: "\<not> starts_with_BOM ''{\"response\":\"lo\",\"done\":true}\<newline>''"
  by (simp add: starts_with_BOM_def)

text \<open>The request of the examples: \<^verbatim>\<open>POST\<close> with the body \<^verbatim>\<open>{"prompt":"Hi"}\<close>.\<close>

lemma req_json_Hi:
  "req_json \<lparr>req_method = str ''POST'', req_body = ''{\"prompt\":\"Hi\"}''\<rparr> =
   Inr (JObj [(str ''prompt'', JStr (str ''Hi''))])"
  by (simp add: eval_defs)

lemma Get_prompt_Hi:
  "Get (JObj [(str ''prompt'', JStr (str ''Hi''))]) (str ''prompt'') = Some (JStr (str ''Hi''))"
  by (simp add: Get_def)

lemma ToBoolean_Hi: "ToBoolean (JStr (str ''Hi''))"
  by (simp add: str_def)

lemma ok_200: "ok \<lparr>up_status = 200, up_body = b\<rparr>"
  by (simp add: ok_def)

section \<open>The claims\<close>

text \<open>
  Claim C1, as the code has it. For every request with a non-empty prompt and every
  upstream stream whose bytes hold the records \<open>r1..rn\<close>, one per line, and whose chunks
  are cut at line terminators (every chunk but the last ends with a line feed; no chunk
  but the first begins with a byte order mark, which the decoder would drop), the text of
  the success response is the concatenation of the \<^verbatim>\<open>response\<close> members of \<open>r1..rn\<close>,
  in order and unchanged. The loop holds no partial line from one chunk to the next, so a
  record whose line is cut by a chunk boundary is lost.
\<close>

theorem whole_lines_concatenated:
  assumes "req_method req = str ''POST''"
    and "req_json req = Inr requestBody"
    and "Get requestBody (str ''prompt'') = Some (JStr p)"
    and "p \<noteq> []"
    and "ok resp"
    and "up_body resp = Some (Stream chunks None)"
    and "\<forall>c \<in> set (butlast chunks). c \<noteq> [] \<and> last c = CHR 0x0A"
    and "\<forall>c \<in> set (tl chunks). \<not> starts_with_BOM c"
    and "map (\<lambda>line. Option.bind (JSON_parse line) as_record) (chunk_lines (concat chunks)) =
         map Some rs"
  shows "snd (handler rt req (Resolves resp)) =
    \<lparr>resp_status = 200, resp_headers = headers,
     resp_body = Some (JObj [(str ''response'', JStr (concat (map response rs)))])\<rparr>"
proof -
  from assms(4) have "ToBoolean (JStr p)" by simp
  note h = handler_streams [OF assms(1-3) this assms(5,6), of rt]
  have "stream_lines chunks = chunk_lines (concat chunks)"
    using assms(7,8) by (rule stream_lines_aligned)
  with assms(9) have "fst (read_loop rt ([], []) chunks) = concat (map response rs)"
    using foldl_add_record_records [of "stream_lines chunks" rs rt "[]"]
    by (simp add: fst_read_loop decoded_records_def)
  with h show ?thesis by simp
qed

text \<open>The two records, one chunk each: the text is \<^verbatim>\<open>Hello\<close>.\<close>

theorem whole_lines_concatenated_witness:
  "last ''{\"response\":\"Hel\",\"done\":false}\<newline>'' = CHR 0x0A \<and>
   \<not> starts_with_BOM ''{\"response\":\"lo\",\"done\":true}\<newline>'' \<and>
   map (\<lambda>line. Option.bind (JSON_parse line) as_record)
     (chunk_lines (concat [''{\"response\":\"Hel\",\"done\":false}\<newline>'',
        ''{\"response\":\"lo\",\"done\":true}\<newline>''])) =
     map Some [\<lparr>response = str ''Hel'', is_done = False\<rparr>, \<lparr>response = str ''lo'', is_done = True\<rparr>] \<and>
   (\<forall>rt.
      snd (handler rt \<lparr>req_method = str ''POST'', req_body = ''{\"prompt\":\"Hi\"}''\<rparr>
        (Resolves \<lparr>up_status = 200, up_body = Some (Stream
          [''{\"response\":\"Hel\",\"done\":false}\<newline>'',
           ''{\"response\":\"lo\",\"done\":true}\<newline>''] None)\<rparr>)) =
      \<lparr>resp_status = 200, resp_headers = headers,
       resp_body = Some (JObj [(str ''response'', JStr (str ''Hello''))])\<rparr>)"
proof -
  let ?c1 = "''{\"response\":\"Hel\",\"done\":false}\<newline>''"
  let ?c2 = "''{\"response\":\"lo\",\"done\":true}\<newline>''"
  have a: "\<forall>c \<in> set (butlast [?c1, ?c2]). c \<noteq> [] \<and> last c = CHR 0x0A"
    by simp
  have b: "\<forall>c \<in> set (tl [?c1, ?c2]). \<not> starts_with_BOM c"
    using not_BOM_lo by simp
  have c: "map (\<lambda>line. Option.bind (JSON_parse line) as_record) (chunk_lines (concat [?c1, ?c2])) =
     map Some [\<lparr>response = str ''Hel'', is_done = False\<rparr>, \<lparr>response = str ''lo'', is_done = True\<rparr>]"
    by (simp add: lines_Hel_lo parse_Hel parse_lo as_record_def Get_def)
  have d: "Get (JObj [(str ''prompt'', JStr (str ''Hi''))]) (str ''prompt'') = Some (JStr (str ''Hi''))"
    by (rule Get_prompt_Hi)
  have e: "str ''Hi'' \<noteq> []"
    by (simp add: str_def)
  have f: "concat (map response [\<lparr>response = str ''Hel'', is_done = False\<rparr>,
      \<lparr>response = str ''lo'', is_done = True\<rparr>]) = str ''Hello''"
    by (simp add: str_def)
  show ?thesis
    using not_BOM_lo c
      whole_lines_concatenated [OF _ req_json_Hi d e
        ok_200 [of "Some (Stream [?c1, ?c2] None)"] _ a b c]
    by (simp add: f)
qed

text \<open>
  Claim C1, as stated, fails: the stream holds the one record \<^verbatim>\<open>ok\<close>, with \<^verbatim>\<open>done\<close>
  true, its line cut after \<^verbatim>\<open>{"resp\<close>; the text returned is empty.
\<close>

theorem split_line_lost_counterexample:
  "map (\<lambda>line. Option.bind (JSON_parse line) as_record)
     (chunk_lines (concat [''{\"resp'', ''onse\":\"ok\",\"done\":true}\<newline>''])) =
     [Some \<lparr>response = str ''ok'', is_done = True\<rparr>] \<and>
   (\<forall>rt.
      snd (handler rt \<lparr>req_method = str ''POST'', req_body = ''{\"prompt\":\"Hi\"}''\<rparr>
        (Resolves \<lparr>up_status = 200, up_body = Some (Stream
          [''{\"resp'', ''onse\":\"ok\",\"done\":true}\<newline>''] None)\<rparr>)) =
      \<lparr>resp_status = 200, resp_headers = headers,
       resp_body = Some (JObj [(str ''response'', JStr [])])\<rparr>)"
proof -
  let ?c1 = "''{\"resp''"
  let ?c2 = "''onse\":\"ok\",\"done\":true}\<newline>''"
  have l: "chunk_lines ''{\"response\":\"ok\",\"done\":true}\<newline>'' =
    [str ''{\"response\":\"ok\",\"done\":true}'']"
    by (simp add: line_defs)
  have p: "JSON_parse (str ''{\"response\":\"ok\",\"done\":true}'') =
    Some (JObj [(str ''response'', JStr (str ''ok'')), (str ''done'', JBool True)])"
    by (simp add: eval_defs)
  have a: "map (\<lambda>line. Option.bind (JSON_parse line) as_record) (chunk_lines (concat [?c1, ?c2])) =
     [Some \<lparr>response = str ''ok'', is_done = True\<rparr>]"
    by (simp add: l p as_record_def Get_def)
  have s: "stream_lines [?c1, ?c2] = [str ''{\"resp'', str ''onse\":\"ok\",\"done\":true}'']"
    by (simp add: line_defs)
  have q: "JSON_parse (str ''{\"resp'') = None" "JSON_parse (str ''onse\":\"ok\",\"done\":true}'') = None"
    by (simp_all add: eval_defs)
  have r: "decoded_records [?c1, ?c2] = []"
    by (simp add: decoded_records_def s q)
  show ?thesis
    using a handler_streams [OF _ req_json_Hi Get_prompt_Hi ToBoolean_Hi
        ok_200 [of "Some (Stream [?c1, ?c2] None)"]]
    by (simp add: fst_read_loop r)
qed

text \<open>
  Claim C2, as the code has it. The loop decodes and splits every chunk on its own and
  holds nothing from one chunk to the next. So for every way of cutting the bytes of the
  upstream output into chunks at line terminators (every chunk but the last ends with a
  line feed; no chunk but the first begins with a byte order mark, which the decoder
  would drop), the decoded records are those of the output delivered in one chunk; a line
  cut by a chunk boundary is not put together again.
\<close>

theorem decoder_whole_lines:
  assumes "\<forall>c \<in> set (butlast chunks). c \<noteq> [] \<and> last c = CHR 0x0A"
    and "\<forall>c \<in> set (tl chunks). \<not> starts_with_BOM c"
  shows "decoded_records chunks = decoded_records [concat chunks] \<and>
    read_loop rt st chunks = read_loop rt st [concat chunks]"
proof -
  have "stream_lines chunks = stream_lines [concat chunks]"
    using stream_lines_aligned [OF assms] by (simp add: stream_lines_def)
  then show ?thesis
    by (simp add: decoded_records_def read_loop_stream_lines)
qed

text \<open>The two records, one chunk each, and both in one chunk.\<close>

theorem decoder_whole_lines_witness:
  "last ''{\"response\":\"Hel\",\"done\":false}\<newline>'' = CHR 0x0A \<and>
   \<not> starts_with_BOM ''{\"response\":\"lo\",\"done\":true}\<newline>'' \<and>
   decoded_records [''{\"response\":\"Hel\",\"done\":false}\<newline>'',
      ''{\"response\":\"lo\",\"done\":true}\<newline>''] =
     [JObj [(str ''response'', JStr (str ''Hel'')), (str ''done'', JBool False)],
      JObj [(str ''response'', JStr (str ''lo'')), (str ''done'', JBool True)]] \<and>
   decoded_records [''{\"response\":\"Hel\",\"done\":false}\<newline>{\"response\":\"lo\",\"done\":true}\<newline>''] =
     [JObj [(str ''response'', JStr (str ''Hel'')), (str ''done'', JBool False)],
      JObj [(str ''response'', JStr (str ''lo'')), (str ''done'', JBool True)]] \<and>
   (\<forall>rt st.
      read_loop rt st [''{\"response\":\"Hel\",\"done\":false}\<newline>'',
        ''{\"response\":\"lo\",\"done\":true}\<newline>''] =
      read_loop rt st
        [''{\"response\":\"Hel\",\"done\":false}\<newline>{\"response\":\"lo\",\"done\":true}\<newline>''])"
proof -
  let ?c1 = "''{\"response\":\"Hel\",\"done\":false}\<newline>''"
  let ?c2 = "''{\"response\":\"lo\",\"done\":true}\<newline>''"
  have a: "\<forall>c \<in> set (butlast [?c1, ?c2]). c \<noteq> [] \<and> last c = CHR 0x0A"
    by simp
  have b: "\<forall>c \<in> set (tl [?c1, ?c2]). \<not> starts_with_BOM c"
    using not_BOM_lo by simp
  have c: "decoded_records [concat [?c1, ?c2]] =
     [JObj [(str ''response'', JStr (str ''Hel'')), (str ''done'', JBool False)],
      JObj [(str ''response'', JStr (str ''lo'')), (str ''done'', JBool True)]]"
    using lines_Hel_lo by (simp add: decoded_records_def stream_lines_def parse_Hel parse_lo)
  show ?thesis
    using not_BOM_lo c decoder_whole_lines [OF a b] by simp
qed

text \<open>
  Claim C2, as stated, fails: the same bytes give one record when they come in one chunk,
  and none when the chunk boundary falls inside the line, since neither piece parses. The
  loop ends with the text \<^verbatim>\<open>ok\<close> in the first case and with the empty text in the second.
\<close>

theorem decoder_split_line_counterexample:
  "concat [''{\"resp'', ''onse\":\"ok\",\"done\":true}\<newline>''] =
     ''{\"response\":\"ok\",\"done\":true}\<newline>'' \<and>
   decoded_records [''{\"response\":\"ok\",\"done\":true}\<newline>''] =
     [JObj [(str ''response'', JStr (str ''ok'')), (str ''done'', JBool True)]] \<and>
   decoded_records [''{\"resp'', ''onse\":\"ok\",\"done\":true}\<newline>''] = [] \<and>
   (\<forall>rt.
      fst (read_loop rt ([], []) [''{\"response\":\"ok\",\"done\":true}\<newline>'']) = str ''ok'' \<and>
      fst (read_loop rt ([], []) [''{\"resp'', ''onse\":\"ok\",\"done\":true}\<newline>'']) = [])"
proof -
  have l: "stream_lines [''{\"response\":\"ok\",\"done\":true}\<newline>''] =
    [str ''{\"response\":\"ok\",\"done\":true}'']"
    by (simp add: line_defs)
  have p: "JSON_parse (str ''{\"response\":\"ok\",\"done\":true}'') =
    Some (JObj [(str ''response'', JStr (str ''ok'')), (str ''done'', JBool True)])"
    by (simp add: eval_defs)
  have s: "stream_lines [''{\"resp'', ''onse\":\"ok\",\"done\":true}\<newline>''] =
    [str ''{\"resp'', str ''onse\":\"ok\",\"done\":true}'']"
    by (simp add: line_defs)
  have q: "JSON_parse (str ''{\"resp'') = None" "JSON_parse (str ''onse\":\"ok\",\"done\":true}'') = None"
    by (simp_all add: eval_defs)
  have r: "decoded_records [''{\"response\":\"ok\",\"done\":true}\<newline>''] =
     [JObj [(str ''response'', JStr (str ''ok'')), (str ''done'', JBool True)]]"
    "decoded_records [''{\"resp'', ''onse\":\"ok\",\"done\":true}\<newline>''] = []"
    by (simp_all add: decoded_records_def l p s q)
  have f: "fragment rt (Get (JObj [(str ''response'', JStr (str ''ok'')), (str ''done'', JBool True)])
    (str ''response'')) = str ''ok''" for rt
    by (simp add: fragment_def Get_def)
  have e: "fst (read_loop rt ([], []) [''{\"response\":\"ok\",\"done\":true}\<newline>'']) = str ''ok''"
    "fst (read_loop rt ([], []) [''{\"resp'', ''onse\":\"ok\",\"done\":true}\<newline>'']) = []" for rt
    unfolding fst_read_loop r by (simp_all add: add_record_fragment f)
  have c: "concat [''{\"resp'', ''onse\":\"ok\",\"done\":true}\<newline>''] =
     ''{\"response\":\"ok\",\"done\":true}\<newline>''"
    by simp
  show ?thesis
    using c r e by blast
qed

text \<open>
  Claim C3, as the code has it. For every \<^verbatim>\<open>POST\<close> request whose prompt is the empty
  string, the handler answers 500 with the error \<^verbatim>\<open>Prompt is required\<close> and never issues
  the upstream call: its only effect is the line written in the \<^verbatim>\<open>catch\<close> block. The
  check is \<^verbatim>\<open>!prompt\<close>, with no trimming.
\<close>

theorem empty_prompt_rejected:
  assumes "req_method req = str ''POST''"
    and "req_json req = Inr requestBody"
    and "Get requestBody (str ''prompt'') = Some (JStr [])"
  shows "handler rt req up =
    ([ConsoleError (str ''Error:'') (Error (str ''Prompt is required''))],
     \<lparr>resp_status = 500, resp_headers = headers,
      resp_body = Some (JObj [(str ''error'', JStr (str ''Prompt is required''))])\<rparr>)"
proof -
  from assms(3) have "requestBody \<noteq> JNull"
    by (auto simp: Get_def)
  with assms have "try_block rt req up = ([], Inl (Error (str ''Prompt is required'')))"
    by (simp add: try_block_def destructure_prompt_def)
  then show ?thesis
    using assms(1) POST_neq_OPTIONS by (simp add: handler_def catch_message_def)
qed

text \<open>The body \<^verbatim>\<open>{"prompt":""}\<close>.\<close>

theorem empty_prompt_rejected_witness:
  "req_json \<lparr>req_method = str ''POST'', req_body = ''{\"prompt\":\"\"}''\<rparr> =
     Inr (JObj [(str ''prompt'', JStr [])]) \<and>
   Get (JObj [(str ''prompt'', JStr [])]) (str ''prompt'') = Some (JStr []) \<and>
   (\<forall>rt up. handler rt \<lparr>req_method = str ''POST'', req_body = ''{\"prompt\":\"\"}''\<rparr> up =
    ([ConsoleError (str ''Error:'') (Error (str ''Prompt is required''))],
     \<lparr>resp_status = 500, resp_headers = headers,
      resp_body = Some (JObj [(str ''error'', JStr (str ''Prompt is required''))])\<rparr>))"
proof -
  have a: "req_json \<lparr>req_method = str ''POST'', req_body = ''{\"prompt\":\"\"}''\<rparr> =
     Inr (JObj [(str ''prompt'', JStr [])])"
    by (simp add: eval_defs)
  have b: "Get (JObj [(str ''prompt'', JStr [])]) (str ''prompt'') = Some (JStr [])"
    by (simp add: Get_def)
  show ?thesis
    using a b empty_prompt_rejected [OF _ a b] by simp
qed

text \<open>
  Claim C3, as stated, fails for a prompt of white space only: the prompt \<^verbatim>\<open>" "\<close> is
  truthy, so the upstream call is issued with it, and the answer is the success response.
\<close>

theorem whitespace_prompt_counterexample:
  "trim (str '' '') = [] \<and>
   (\<forall>rt. handler rt \<lparr>req_method = str ''POST'', req_body = ''{\"prompt\":\" \"}''\<rparr>
      (Resolves \<lparr>up_status = 200, up_body = Some (Stream [] None)\<rparr>) =
    ([Fetch ollamaUrl (ollamaRequestBody (JStr (str '' '')))],
     \<lparr>resp_status = 200, resp_headers = headers,
      resp_body = Some (JObj [(str ''response'', JStr [])])\<rparr>))"
proof -
  have a: "req_json \<lparr>req_method = str ''POST'', req_body = ''{\"prompt\":\" \"}''\<rparr> =
     Inr (JObj [(str ''prompt'', JStr (str '' ''))])"
    by (simp add: eval_defs)
  have b: "Get (JObj [(str ''prompt'', JStr (str '' ''))]) (str ''prompt'') = Some (JStr (str '' ''))"
    by (simp add: Get_def)
  have c: "ToBoolean (JStr (str '' ''))"
    by (simp add: str_def)
  have d: "trim (str '' '') = []"
    by (simp add: trim_def str_def is_js_space_def)
  show ?thesis
    using d handler_streams [OF _ a b c ok_200, of "Some (Stream [] None)" "[]"]
    by simp
qed




text \<open>
  Claim C5, as the code has it. For every upstream response with a status outside
  200..299 whose body text can be read, \<open>errorText\<close>, the handler answers a valid request
  with status 500 and an error body whose message is \<^verbatim>\<open>Ollama API error: \<close>, the status
  code in decimal (the string of digits, with no leading zero, whose value is the
  status), a comma and a space, and \<open>errorText\<close>: it holds both the upstream status code
  and the upstream body text. Where reading the body fails, \<^verbatim>\<open>response.text()\<close> rejects
  before the message is built, and the 500 carries the message of that failure.
\<close>

theorem upstream_error_status:
  assumes "req_method req = str ''POST''"
    and "req_json req = Inr requestBody"
    and "Get requestBody (str ''prompt'') = Some prompt"
    and "ToBoolean prompt"
    and "\<not> ok resp"
    and "response_text resp = Inr errorText"
  shows "handler rt req (Resolves resp) =
      ([Fetch ollamaUrl (ollamaRequestBody prompt),
        ConsoleError (str ''Error:'')
          (Error (str ''Ollama API error: '' @ decimal (up_status resp) @ str '', '' @ errorText))],
       \<lparr>resp_status = 500, resp_headers = headers,
        resp_body = Some (JObj [(str ''error'',
          JStr (str ''Ollama API error: '' @ decimal (up_status resp) @ str '', '' @ errorText))])\<rparr>) \<and>
    list_all is_digit (decimal (up_status resp)) \<and>
    digits_val (decimal (up_status resp)) = up_status resp \<and>
    (0 < up_status resp \<longrightarrow> hd (decimal (up_status resp)) \<noteq> 0x30)"
proof -
  from assms(3) have "requestBody \<noteq> JNull"
    by (auto simp: Get_def)
  with assms have "try_block rt req (Resolves resp) =
    ([Fetch ollamaUrl (ollamaRequestBody prompt)],
     Inl (Error (str ''Ollama API error: '' @ decimal (up_status resp) @ str '', '' @ errorText)))"
    by (simp add: try_block_def destructure_prompt_def)
  then show ?thesis
    using assms(1) POST_neq_OPTIONS
    by (simp add: handler_def catch_message_def decimal_digits decimal_value
        decimal_no_leading_zero)
qed

text \<open>The upstream service answers 503 with the body \<^verbatim>\<open>overloaded\<close>, in two chunks.\<close>

theorem upstream_error_status_witness:
  "\<not> ok \<lparr>up_status = 503, up_body = Some (Stream [''over'', ''loaded''] None)\<rparr> \<and>
   response_text \<lparr>up_status = 503, up_body = Some (Stream [''over'', ''loaded''] None)\<rparr> =
     Inr (str ''overloaded'') \<and>
   decimal 503 = str ''503'' \<and>
   (\<forall>rt. handler rt \<lparr>req_method = str ''POST'', req_body = ''{\"prompt\":\"Hi\"}''\<rparr>
      (Resolves \<lparr>up_status = 503, up_body = Some (Stream [''over'', ''loaded''] None)\<rparr>) =
    ([Fetch ollamaUrl (ollamaRequestBody (JStr (str ''Hi''))),
      ConsoleError (str ''Error:'') (Error (str ''Ollama API error: 503, overloaded''))],
     \<lparr>resp_status = 500, resp_headers = headers,
      resp_body = Some (JObj [(str ''error'', JStr (str ''Ollama API error: 503, overloaded''))])\<rparr>))"
proof -
  let ?resp = "\<lparr>up_status = 503, up_body = Some (Stream [''over'', ''loaded''] None)\<rparr>"
  have a: "\<not> ok ?resp"
    by (simp add: ok_def)
  have b: "response_text ?resp = Inr (str ''overloaded'')"
    by (simp add: response_text_def TextDecoder_decode_def utf16_def str_def)
  have c: "decimal 503 = str ''503''"
    by (simp add: str_def decimal.simps)
  show ?thesis
    using a b c upstream_error_status [OF _ req_json_Hi Get_prompt_Hi ToBoolean_Hi a b]
    by (simp add: c)
qed

text \<open>
  Claim C5, as stated, fails for an upstream response whose body cannot be read: the
  service answers 503, delivers \<^verbatim>\<open>over\<close>, and the read then fails with the message
  \<^verbatim>\<open>boom\<close>. The 500 carries \<^verbatim>\<open>boom\<close>, with neither the status code nor any body text.
\<close>

theorem upstream_body_unreadable_counterexample:
  "\<not> ok \<lparr>up_status = 503, up_body = Some (Stream [''over''] (Some (Error (str ''boom''))))\<rparr> \<and>
   (\<forall>rt. handler rt \<lparr>req_method = str ''POST'', req_body = ''{\"prompt\":\"Hi\"}''\<rparr>
      (Resolves \<lparr>up_status = 503,
         up_body = Some (Stream [''over''] (Some (Error (str ''boom''))))\<rparr>) =
    ([Fetch ollamaUrl (ollamaRequestBody (JStr (str ''Hi''))),
      ConsoleError (str ''Error:'') (Error (str ''boom''))],
     \<lparr>resp_status = 500, resp_headers = headers,
      resp_body = Some (JObj [(str ''error'', JStr (str ''boom''))])\<rparr>))"
proof -
  let ?resp = "\<lparr>up_status = 503, up_body = Some (Stream [''over''] (Some (Error (str ''boom''))))\<rparr>"
  have a: "\<not> ok ?resp"
    by (simp add: ok_def)
  have b: "response_text ?resp = Inl (Error (str ''boom''))"
    by (simp add: response_text_def)
  have "try_block rt \<lparr>req_method = str ''POST'', req_body = ''{\"prompt\":\"Hi\"}''\<rparr> (Resolves ?resp) =
    ([Fetch ollamaUrl (ollamaRequestBody (JStr (str ''Hi'')))], Inl (Error (str ''boom'')))" for rt
    using a b ToBoolean_Hi
    by (simp add: try_block_def req_json_Hi destructure_prompt_def Get_prompt_Hi)
  then show ?thesis
    using a POST_neq_OPTIONS by (simp add: handler_def catch_message_def)
qed

text \<open>
  Claim C6. For every inbound request whose method is neither \<^verbatim>\<open>POST\<close> nor \<^verbatim>\<open>OPTIONS\<close>,
  the handler returns status 405 with the body \<^verbatim>\<open>{"error": "Method Not Allowed"}\<close>, and
  reaches neither the validation of the body nor the upstream logic: whatever the body
  and the upstream service are, it has no effect at all (no call, nothing logged).
\<close>

theorem method_not_allowed:
  "req_method req \<noteq> str ''OPTIONS'' \<Longrightarrow> req_method req \<noteq> str ''POST'' \<Longrightarrow>
   handler rt req up =
     ([], \<lparr>resp_status = 405, resp_headers = headers,
           resp_body = Some (JObj [(str ''error'', JStr (str ''Method Not Allowed''))])\<rparr>)"
  by (simp add: handler_def)

text \<open>A \<^verbatim>\<open>GET\<close> request, with a body that would be valid.\<close>

theorem method_not_allowed_witness:
  "str ''GET'' \<noteq> str ''OPTIONS'' \<and> str ''GET'' \<noteq> str ''POST'' \<and>
   (\<forall>rt up. handler rt \<lparr>req_method = str ''GET'', req_body = ''{\"prompt\":\"Hi\"}''\<rparr> up =
     ([], \<lparr>resp_status = 405, resp_headers = headers,
           resp_body = Some (JObj [(str ''error'', JStr (str ''Method Not Allowed''))])\<rparr>))"
proof -
  have a: "str ''GET'' \<noteq> str ''OPTIONS''" and b: "str ''GET'' \<noteq> str ''POST''"
    by (simp_all add: str_def)
  show ?thesis
    using a b method_not_allowed [of "\<lparr>req_method = str ''GET'', req_body = ''{\"prompt\":\"Hi\"}''\<rparr>"]
    by simp
qed

text \<open>
  Claim C7. For every valid request whose upstream stream closes after delivering zero
  records (an empty body, or one with no line that parses), the handler returns the
  success response with the empty string as its text, not an error.
\<close>

theorem no_records_empty_success:
  assumes "req_method req = str ''POST''"
    and "req_json req = Inr requestBody"
    and "Get requestBody (str ''prompt'') = Some prompt"
    and "ToBoolean prompt"
    and "ok resp"
    and "up_body resp = Some (Stream chunks None)"
    and "decoded_records chunks = []"
  shows "snd (handler rt req (Resolves resp)) =
    \<lparr>resp_status = 200, resp_headers = headers,
     resp_body = Some (JObj [(str ''response'', JStr [])])\<rparr>"
  using handler_streams [OF assms(1-6), of rt] assms(7)
  by (simp add: fst_read_loop)

text \<open>The upstream body is empty: the first read reports the end of the stream.\<close>

theorem no_records_empty_success_witness:
  "decoded_records [] = [] \<and>
   (\<forall>rt. snd (handler rt \<lparr>req_method = str ''POST'', req_body = ''{\"prompt\":\"Hi\"}''\<rparr>
      (Resolves \<lparr>up_status = 200, up_body = Some (Stream [] None)\<rparr>)) =
    \<lparr>resp_status = 200, resp_headers = headers,
     resp_body = Some (JObj [(str ''response'', JStr [])])\<rparr>)"
proof -
  have a: "decoded_records [] = []"
    by (simp add: decoded_records_def stream_lines_def List.map_filter_simps)
  show ?thesis
    using a no_records_empty_success [OF _ req_json_Hi Get_prompt_Hi ToBoolean_Hi ok_200 _ a,
        of "Some (Stream [] None)"]
    by simp
qed

text \<open>
  Claim C8. For every upstream stream, the text returned to a valid request is the
  concatenation of the fragments of all its decoded records, each fragment a function of
  the record's \<^verbatim>\<open>response\<close> member alone: \<^verbatim>\<open>done\<close> neither stops the reading nor freezes
  the text, and a stream whose records have the same \<^verbatim>\<open>response\<close> members (whatever
  their \<^verbatim>\<open>done\<close> members are) returns the same response.
\<close>

theorem done_flags_ignored:
  assumes "req_method req = str ''POST''"
    and "req_json req = Inr requestBody"
    and "Get requestBody (str ''prompt'') = Some prompt"
    and "ToBoolean prompt"
    and "ok resp" and "up_body resp = Some (Stream chunks None)"
    and "ok resp'" and "up_body resp' = Some (Stream chunks' None)"
    and "map (\<lambda>v. Get v (str ''response'')) (decoded_records chunks) =
         map (\<lambda>v. Get v (str ''response'')) (decoded_records chunks')"
  shows "snd (handler rt req (Resolves resp)) =
      \<lparr>resp_status = 200, resp_headers = headers,
       resp_body = Some (JObj [(str ''response'',
         JStr (concat (map (\<lambda>v. fragment rt (Get v (str ''response'')))
           (decoded_records chunks))))])\<rparr> \<and>
    snd (handler rt req (Resolves resp')) = snd (handler rt req (Resolves resp))"
proof -
  have eq: "map (\<lambda>v. fragment rt (Get v (str ''response''))) (decoded_records chunks) =
    map (\<lambda>v. fragment rt (Get v (str ''response''))) (decoded_records chunks')"
    using arg_cong [OF assms(9), of "map (fragment rt)"] by (simp add: comp_def)
  show ?thesis
    using handler_streams [OF assms(1-4) assms(5,6), of rt]
      handler_streams [OF assms(1-4) assms(7,8), of rt] eq
    by (simp add: fst_read_loop foldl_add_record)
qed


text \<open>The same two fragments, with the flag raised on the first record or on the second.\<close>

theorem done_flags_ignored_witness:
  "map (\<lambda>v. Get v (str ''response''))
     (decoded_records [''{\"response\":\"Hel\",\"done\":true}\<newline>{\"response\":\"lo\",\"done\":false}''])
   = map (\<lambda>v. Get v (str ''response''))
     (decoded_records [''{\"response\":\"Hel\",\"done\":false}\<newline>{\"response\":\"lo\",\"done\":true}''])
   \<and>
   (\<forall>rt.
      snd (handler rt \<lparr>req_method = str ''POST'', req_body = ''{\"prompt\":\"Hi\"}''\<rparr>
        (Resolves \<lparr>up_status = 200, up_body = Some (Stream
          [''{\"response\":\"Hel\",\"done\":true}\<newline>{\"response\":\"lo\",\"done\":false}''] None)\<rparr>)) =
      \<lparr>resp_status = 200, resp_headers = headers,
       resp_body = Some (JObj [(str ''response'', JStr (str ''Hello''))])\<rparr> \<and>
      snd (handler rt \<lparr>req_method = str ''POST'', req_body = ''{\"prompt\":\"Hi\"}''\<rparr>
        (Resolves \<lparr>up_status = 200, up_body = Some (Stream
          [''{\"response\":\"Hel\",\"done\":false}\<newline>{\"response\":\"lo\",\"done\":true}''] None)\<rparr>)) =
      \<lparr>resp_status = 200, resp_headers = headers,
       resp_body = Some (JObj [(str ''response'', JStr (str ''Hello''))])\<rparr>)"
proof -
  let ?c = "''{\"response\":\"Hel\",\"done\":true}\<newline>{\"response\":\"lo\",\"done\":false}''"
  let ?c' = "''{\"response\":\"Hel\",\"done\":false}\<newline>{\"response\":\"lo\",\"done\":true}''"
  have l: "stream_lines [?c] =
      [str ''{\"response\":\"Hel\",\"done\":true}'', str ''{\"response\":\"lo\",\"done\":false}'']"
    and l': "stream_lines [?c'] =
      [str ''{\"response\":\"Hel\",\"done\":false}'', str ''{\"response\":\"lo\",\"done\":true}'']"
    by (simp_all add: line_defs)
  have p: "JSON_parse (str ''{\"response\":\"Hel\",\"done\":true}'') =
      Some (JObj [(str ''response'', JStr (str ''Hel'')), (str ''done'', JBool True)])"
    "JSON_parse (str ''{\"response\":\"lo\",\"done\":false}'') =
      Some (JObj [(str ''response'', JStr (str ''lo'')), (str ''done'', JBool False)])"
    "JSON_parse (str ''{\"response\":\"Hel\",\"done\":false}'') =
      Some (JObj [(str ''response'', JStr (str ''Hel'')), (str ''done'', JBool False)])"
    "JSON_parse (str ''{\"response\":\"lo\",\"done\":true}'') =
      Some (JObj [(str ''response'', JStr (str ''lo'')), (str ''done'', JBool True)])"
    by (simp_all add: eval_defs)
  have r: "decoded_records [?c] =
      [JObj [(str ''response'', JStr (str ''Hel'')), (str ''done'', JBool True)],
       JObj [(str ''response'', JStr (str ''lo'')), (str ''done'', JBool False)]]"
    and r': "decoded_records [?c'] =
      [JObj [(str ''response'', JStr (str ''Hel'')), (str ''done'', JBool False)],
       JObj [(str ''response'', JStr (str ''lo'')), (str ''done'', JBool True)]]"
    by (simp_all add: decoded_records_def l l' p)
  have a: "map (\<lambda>v. Get v (str ''response'')) (decoded_records [?c]) =
    map (\<lambda>v. Get v (str ''response'')) (decoded_records [?c'])"
    by (simp add: r r' Get_def str_def)
  have f: "concat (map (\<lambda>v. fragment rt (Get v (str ''response''))) (decoded_records [?c])) =
    str ''Hello''" for rt
    by (simp add: r Get_def fragment_def str_def)
  show ?thesis
    using a done_flags_ignored [OF _ req_json_Hi Get_prompt_Hi ToBoolean_Hi
        ok_200 [of "Some (Stream [?c] None)"] _ ok_200 [of "Some (Stream [?c'] None)"] _ a]
    by (simp add: f)
qed

text \<open>
  Claim C9. For every \<^verbatim>\<open>POST\<close> request whose body is not valid JSON, the handler returns
  status 500 with an error body, whose message is that of the \<^verbatim>\<open>SyntaxError\<close> thrown by
  the parser, and makes no upstream call: its only effect is the line written by
  \<^verbatim>\<open>console.error\<close> in the \<^verbatim>\<open>catch\<close> block.
\<close>

theorem invalid_json_body:
  assumes "req_method req = str ''POST''"
    and "JSON_parse (TextDecoder_decode (req_body req)) = None"
  shows "handler rt req up =
    ([ConsoleError (str ''Error:'')
        (EngineError (JSON_SyntaxError (TextDecoder_decode (req_body req))))],
     \<lparr>resp_status = 500, resp_headers = headers,
      resp_body = Some (JObj [(str ''error'',
        JStr (error_message rt (JSON_SyntaxError (TextDecoder_decode (req_body req)))))])\<rparr>)"
  using assms POST_neq_OPTIONS
  by (simp add: handler_def try_block_def req_json_def catch_message_def)

text \<open>A body cut off after the name of its member.\<close>

theorem invalid_json_body_witness:
  "JSON_parse (TextDecoder_decode ''{\"prompt\"'') = None \<and>
   (\<forall>rt up. handler rt \<lparr>req_method = str ''POST'', req_body = ''{\"prompt\"''\<rparr> up =
    ([ConsoleError (str ''Error:'') (EngineError (JSON_SyntaxError (str ''{\"prompt\"'')))],
     \<lparr>resp_status = 500, resp_headers = headers,
      resp_body = Some (JObj [(str ''error'',
        JStr (error_message rt (JSON_SyntaxError (str ''{\"prompt\"''))))])\<rparr>))"
proof -
  have a: "JSON_parse (TextDecoder_decode ''{\"prompt\"'') = None"
    by (simp add: eval_defs)
  have b: "TextDecoder_decode ''{\"prompt\"'' = str ''{\"prompt\"''"
    by (simp add: TextDecoder_decode_def utf16_def str_def)
  show ?thesis
    using a invalid_json_body [of "\<lparr>req_method = str ''POST'', req_body = ''{\"prompt\"''\<rparr>"]
    by (simp add: b)
qed



end
